theory Spec2Isabelle
  imports Main
begin

section \<open>Data model of timber.go\<close>

text \<open>
  \<^verbatim>\<open>type Level int\<close> with the constants \<^verbatim>\<open>NONE = iota, FINEST, ..., CRITICAL\<close>.
  A Go \<^verbatim>\<open>int\<close> holds negative values too, and nothing in the dispatch code restricts a
  level to the nine named constants, so a level is an integer.
\<close>

type_synonym Level = int

definition NONE :: Level where "NONE = 0"
definition FINEST :: Level where "FINEST = 1"
definition FINE :: Level where "FINE = 2"
definition DEBUG :: Level where "DEBUG = 3"
definition TRACE :: Level where "TRACE = 4"
definition INFO :: Level where "INFO = 5"
definition WARNING :: Level where "WARNING = 6"
definition ERROR :: Level where "ERROR = 7"
definition CRITICAL :: Level where "CRITICAL = 8"

text \<open>
  \<^verbatim>\<open>type LogRecord struct\<close>. The timestamp is the value of
  \<^verbatim>\<open>makeTimeLogglyCompat(time.Now())\<close>, kept abstract as a number; the extra fields are
  carried through unread by the dispatch code.
\<close>

record LogRecord =
  Level :: Level
  Timestamp :: nat
  SourceFile :: string
  SourceLine :: int
  Message :: string
  FuncPath :: string
  MethodPath :: string
  PackagePath :: string
  HostName :: string
  Extra :: "(string \<times> string) list"

text \<open>
  \<^verbatim>\<open>type LogWriter interface { LogWrite(msg string); Close() }\<close>: a destination is an
  external object. It is modelled by its identity, and the calls made on destinations,
  together with the values sent on a request's \<^verbatim>\<open>Ret\<close> channel, are recorded in order.
\<close>

type_synonym LogWriter = nat

datatype event = EvLogWrite LogWriter string | EvClose LogWriter | EvRet int

text \<open>
  \<^verbatim>\<open>type ConfigLogger struct\<close>. \<^verbatim>\<open>Formatter\<close> is the \<^verbatim>\<open>Format\<close> method of the
  \<^verbatim>\<open>LogFormatter\<close> interface; \<^verbatim>\<open>Granulars\<close> is a Go map (a nil map has no keys).
\<close>

record ConfigLogger =
  LogWriter :: LogWriter
  Level :: Level
  Formatter :: "LogRecord \<Rightarrow> string"
  Granulars :: "string \<rightharpoonup> Level"

text \<open>
  What the Go run time does where HOL would return an unspecified value: a slice bound or
  an index out of range panics, as does closing a closed channel; a channel operation that
  cannot proceed blocks.
\<close>

datatype fault = SliceBoundsOutOfRange | IndexOutOfRange | CloseOfClosedChannel | Blocks

section \<open>parseFuncName\<close>

text \<open>
  \<^verbatim>\<open>strings.LastIndex(s, ".")\<close> with a one-byte separator: the index of the last
  occurrence of the byte, or \<open>-1\<close>.
\<close>

fun LastIndex :: "string \<Rightarrow> char \<Rightarrow> int" where
  "LastIndex [] c = - 1"
| "LastIndex (x # xs) c =
     (let r = LastIndex xs c
      in if 0 \<le> r then r + 1 else if x = c then 0 else - 1)"

text \<open>\<^verbatim>\<open>s[:hi]\<close> and \<^verbatim>\<open>s[i]\<close> on a Go string, with the run-time checks.\<close>

definition slice_to :: "string \<Rightarrow> int \<Rightarrow> fault + string" where
  "slice_to s hi =
     (if 0 \<le> hi \<and> hi \<le> int (length s) then Inr (take (nat hi) s)
      else Inl SliceBoundsOutOfRange)"

definition index_at :: "string \<Rightarrow> int \<Rightarrow> fault + char" where
  "index_at s i =
     (if 0 \<le> i \<and> i < int (length s) then Inr (s ! nat i) else Inl IndexOutOfRange)"

text \<open>
  \<^verbatim>\<open>
  func parseFuncName(funcName string) (string, string) {
      packagePath := ""
      methodPath := ""
      lastDot := strings.LastIndex(funcName, ".")
      packagePath = funcName[:lastDot]
      if packagePath[len(packagePath)-1] == ')' {
          methodPath = packagePath
          lastDot := strings.LastIndex(packagePath, ".")
          packagePath = packagePath[:lastDot]
      }
      return packagePath, methodPath
  }
  \<close>
  The result is the pair (packagePath, methodPath).
\<close>

definition parseFuncName :: "string \<Rightarrow> fault + (string \<times> string)" where
  "parseFuncName funcName =
     (let lastDot = LastIndex funcName (CHR ''.'') in
      case slice_to funcName lastDot of
        Inl e \<Rightarrow> Inl e
      | Inr packagePath \<Rightarrow>
          (case index_at packagePath (int (length packagePath) - 1) of
             Inl e \<Rightarrow> Inl e
           | Inr ch \<Rightarrow>
               if ch = CHR '')'' then
                 (let methodPath = packagePath;
                      lastDot' = LastIndex packagePath (CHR ''.'')
                  in case slice_to packagePath lastDot' of
                       Inl e \<Rightarrow> Inl e
                     | Inr packagePath' \<Rightarrow> Inr (packagePath', methodPath))
               else Inr (packagePath, [])))"

section \<open>Fan-out: sendToLogger and sendToLoggers\<close>

text \<open>
  \<^verbatim>\<open>
  func sendToLogger(rec *LogRecord, granLevel Level, formatted string, cLog ConfigLogger) bool {
      if rec.Level >= granLevel || granLevel == 0 {
          if formatted == "" {
              formatted = cLog.Formatter.Format(rec)
          }
          cLog.LogWriter.LogWrite(formatted)
          return true
      }
      return false
  }
  \<close>
  The calls on the destination are appended to the event list \<open>tr\<close>.
\<close>

definition sendToLogger ::
  "LogRecord \<Rightarrow> Level \<Rightarrow> string \<Rightarrow> ConfigLogger \<Rightarrow> event list \<Rightarrow> bool \<times> event list" where
  "sendToLogger rec granLevel formatted cLog tr =
     (if granLevel \<le> LogRecord.Level rec \<or> granLevel = 0 then
        (let formatted' = (if formatted = [] then Formatter cLog rec else formatted)
         in (True, tr @ [EvLogWrite (LogWriter cLog) formatted']))
      else (False, tr))"

text \<open>
  \<^verbatim>\<open>sendToLoggers\<close>: the loop over the registry. \<^verbatim>\<open>formatted\<close> is passed by value and
  stays \<^verbatim>\<open>""\<close> for every entry; each \<^verbatim>\<open>continue\<close> goes on with the next entry.
\<close>

fun sendToLoggers :: "ConfigLogger list \<Rightarrow> LogRecord \<Rightarrow> event list \<Rightarrow> event list" where
  "sendToLoggers [] rec tr = tr"
| "sendToLoggers (cLog # rest) rec tr =
     (case Granulars cLog (FuncPath rec) of
        Some gLevel \<Rightarrow> sendToLoggers rest rec (snd (sendToLogger rec gLevel [] cLog tr))
      | None \<Rightarrow>
     (case Granulars cLog (MethodPath rec) of
        Some gLevel \<Rightarrow> sendToLoggers rest rec (snd (sendToLogger rec gLevel [] cLog tr))
      | None \<Rightarrow>
     (case Granulars cLog (PackagePath rec) of
        Some gLevel \<Rightarrow> sendToLoggers rest rec (snd (sendToLogger rec gLevel [] cLog tr))
      | None \<Rightarrow>
          sendToLoggers rest rec
            (snd (sendToLogger rec (ConfigLogger.Level cLog) [] cLog tr)))))"

text \<open>
  The effective threshold as the specification words it (section 4.3): the granular
  override of the function identity, else of the method identity, else of the package
  identity, else the entry's default. It is compared with the loop body above.
\<close>

definition effectiveThreshold :: "ConfigLogger \<Rightarrow> LogRecord \<Rightarrow> Level" where
  "effectiveThreshold cLog rec =
     (case Granulars cLog (FuncPath rec) of
        Some l \<Rightarrow> l
      | None \<Rightarrow>
     (case Granulars cLog (MethodPath rec) of
        Some l \<Rightarrow> l
      | None \<Rightarrow>
     (case Granulars cLog (PackagePath rec) of
        Some l \<Rightarrow> l
      | None \<Rightarrow> ConfigLogger.Level cLog)))"

text \<open>\<^verbatim>\<open>closeAllWriters\<close>: one \<^verbatim>\<open>Close\<close> per entry, in slice order.\<close>

fun closeAllWriters :: "ConfigLogger list \<Rightarrow> event list \<Rightarrow> event list" where
  "closeAllWriters [] tr = tr"
| "closeAllWriters (cLog # cls) tr = closeAllWriters cls (tr @ [EvClose (LogWriter cLog)])"

section \<open>The Timber instance and its actor\<close>

datatype timberAction = actionAdd | actionSet | actionModify | actionQuit

text \<open>
  \<^verbatim>\<open>type timberConfig struct\<close>. The \<^verbatim>\<open>Ret\<close> channel is private to one request: a value
  sent on it is recorded as \<open>EvRet\<close> and handed back to the requester.
\<close>

record timberConfig =
  Action :: timberAction
  Index :: int
  Cfg :: ConfigLogger

text \<open>
  \<^verbatim>\<open>type Timber struct\<close> together with the local state of its goroutine
  \<^verbatim>\<open>asyncLumberJack\<close>:
  \<^item> \<open>recordChan\<close>: the content of the buffered channel, oldest record first;
  \<^item> \<open>closeLatch\<close>: the \<^verbatim>\<open>sync.Once\<close> has run;
  \<^item> \<open>blackHole\<close>: the channel has been closed;
  \<^item> \<open>Hostname\<close>: the provider function (\<open>None\<close> is nil, \<open>Some h\<close> returns \<open>h\<close>);
  \<^item> \<open>loggers\<close>: the goroutine's slice of entries;
  \<^item> \<open>exited\<close>: the goroutine has returned;
  \<^item> \<open>trace\<close>: the calls made on destinations and the replies sent, in order.
  Each operation below is one atomic step of the system, so an interleaving of callers and
  actor is a sequence of steps.
\<close>

record Timber =
  recordChan :: "LogRecord list"
  closeLatch :: bool
  blackHole :: bool
  FileDepth :: int
  Hostname :: "string option"
  loggers :: "ConfigLogger list"
  exited :: bool
  trace :: "event list"

definition DefaultFileDepth :: int where "DefaultFileDepth = 3"

text \<open>The capacity given to \<^verbatim>\<open>make(chan *LogRecord, 300)\<close> in \<^verbatim>\<open>NewTimber\<close>.\<close>

definition recordChanCap :: nat where "recordChanCap = 300"

text \<open>\<^verbatim>\<open>NewTimber\<close>; \<open>h\<close> is what \<^verbatim>\<open>os.Hostname()\<close> returns.\<close>

definition NewTimber :: "string \<Rightarrow> Timber" where
  "NewTimber h =
     \<lparr>recordChan = [], closeLatch = False, blackHole = False, FileDepth = DefaultFileDepth,
      Hostname = Some h, loggers = [], exited = False, trace = []\<rparr>"

text \<open>
  The first loop of \<^verbatim>\<open>asyncLumberJack\<close>, branch \<^verbatim>\<open>case rec := <-t.recordChan\<close>: enabled
  when the goroutine runs and the channel holds a record.
\<close>

definition asyncLumberJack_record :: "Timber \<Rightarrow> fault + Timber" where
  "asyncLumberJack_record t =
     (if exited t then Inl Blocks
      else case recordChan t of
             [] \<Rightarrow> Inl Blocks
           | rec # q \<Rightarrow>
               Inr (t\<lparr>recordChan := q, trace := sendToLoggers (loggers t) rec (trace t)\<rparr>))"

text \<open>
  The second loop of \<^verbatim>\<open>asyncLumberJack\<close>: receive while the channel holds a record, stop
  at the \<^verbatim>\<open>default\<close> branch when it is empty.
\<close>

fun drain :: "ConfigLogger list \<Rightarrow> LogRecord list \<Rightarrow> event list \<Rightarrow> event list" where
  "drain ls [] tr = tr"
| "drain ls (rec # q) tr = drain ls q (sendToLoggers ls rec tr)"

text \<open>
  Branch \<^verbatim>\<open>case cfg := <-t.writerConfigChan\<close> with its \<^verbatim>\<open>switch cfg.Action\<close>. The result
  holds the value sent on \<^verbatim>\<open>cfg.Ret\<close>, if any. For \<^verbatim>\<open>actionQuit\<close> the rest of the function
  follows: the drain loop, \<^verbatim>\<open>closeAllWriters\<close>, and last the deferred \<^verbatim>\<open>cfg.Ret <- 0\<close>.
  A goroutine that has returned receives nothing, so the requester's send blocks.
\<close>

definition asyncLumberJack_config :: "Timber \<Rightarrow> timberConfig \<Rightarrow> fault + (int option \<times> Timber)" where
  "asyncLumberJack_config t cfg =
     (if exited t then Inl Blocks
      else case Action cfg of
        actionAdd \<Rightarrow>
          (let loggers' = loggers t @ [Cfg cfg];
               r = int (length loggers') - 1
           in Inr (Some r, t\<lparr>loggers := loggers', trace := trace t @ [EvRet r]\<rparr>))
      | actionSet \<Rightarrow>
          (if 0 \<le> Index cfg \<and> Index cfg < int (length (loggers t)) then
             Inr (None,
                  t\<lparr>loggers := (loggers t)[nat (Index cfg) := Cfg cfg],
                    trace := trace t @ [EvClose (LogWriter (loggers t ! nat (Index cfg)))]\<rparr>)
           else Inl IndexOutOfRange)
      | actionModify \<Rightarrow> Inr (None, t)
      | actionQuit \<Rightarrow>
          (if blackHole t then Inl CloseOfClosedChannel
           else
             (let tr1 = drain (loggers t) (recordChan t) (trace t);
                  tr2 = closeAllWriters (loggers t) tr1
              in Inr (Some 0,
                      t\<lparr>blackHole := True, recordChan := [], exited := True,
                        trace := tr2 @ [EvRet 0]\<rparr>))))"

section \<open>The MultiLogger interface\<close>

text \<open>
  \<^verbatim>\<open>AddLogger\<close>: send the request, then \<^verbatim>\<open>return <-tcChan\<close>.
\<close>

definition AddLogger :: "Timber \<Rightarrow> ConfigLogger \<Rightarrow> fault + (int \<times> Timber)" where
  "AddLogger t logger =
     (case asyncLumberJack_config t \<lparr>Action = actionAdd, Index = 0, Cfg = logger\<rparr> of
        Inl e \<Rightarrow> Inl e
      | Inr (None, t') \<Rightarrow> Inl Blocks
      | Inr (Some r, t') \<Rightarrow> Inr (r, t'))"

text \<open>\<^verbatim>\<open>SetLogger\<close>: send the request; nothing is awaited.\<close>

definition SetLogger :: "Timber \<Rightarrow> int \<Rightarrow> ConfigLogger \<Rightarrow> fault + Timber" where
  "SetLogger t index logger =
     (case asyncLumberJack_config t \<lparr>Action = actionSet, Index = index, Cfg = logger\<rparr> of
        Inl e \<Rightarrow> Inl e
      | Inr (r, t') \<Rightarrow> Inr t')"

text \<open>The zero value \<^verbatim>\<open>ConfigLogger{}\<close> of a request that names no entry.\<close>

definition zeroConfigLogger :: ConfigLogger where
  "zeroConfigLogger = \<lparr>LogWriter = 0, Level = 0, Formatter = (\<lambda>rec. []), Granulars = Map.empty\<rparr>"

text \<open>
  \<^verbatim>\<open>
  func (t *Timber) Close() {
      t.closeLatch.Do(func() {
          tcChan := make(chan int)
          tc := timberConfig{Action: actionQuit, Ret: tcChan}
          t.writerConfigChan <- tc
          <-tcChan // block for cloosing
      })
  }
  \<close>
\<close>

definition Close :: "Timber \<Rightarrow> fault + Timber" where
  "Close t =
     (if closeLatch t then Inr t
      else
        case asyncLumberJack_config t \<lparr>Action = actionQuit, Index = 0, Cfg = zeroConfigLogger\<rparr> of
          Inl e \<Rightarrow> Inl e
        | Inr (None, t') \<Rightarrow> Inl Blocks
        | Inr (Some r, t') \<Rightarrow> Inr (t'\<lparr>closeLatch := True\<rparr>))"

section \<open>Record submission\<close>

text \<open>
  What the run time reports for the frame selected by the depth argument: the time
  (after \<^verbatim>\<open>makeTimeLogglyCompat\<close>), file and line of \<^verbatim>\<open>runtime.Caller\<close>, and the name
  of \<^verbatim>\<open>runtime.FuncForPC\<close> (\<open>None\<close> when that is nil).
\<close>

record callsite =
  site_now :: nat
  site_file :: string
  site_line :: int
  site_me :: "string option"

text \<open>\<^verbatim>\<open>prepare\<close>: the three paths default to \<^verbatim>\<open>"_"\<close>.\<close>

definition prepare ::
  "Timber \<Rightarrow> Level \<Rightarrow> (string \<times> string) list \<Rightarrow> string \<Rightarrow> callsite \<Rightarrow> fault + LogRecord" where
  "prepare t lvl extra msg site =
     (case (case site_me site of
              None \<Rightarrow> Inr (''_'', ''_'', ''_'')
            | Some funcPath \<Rightarrow>
                (case parseFuncName funcPath of
                   Inl e \<Rightarrow> Inl e
                 | Inr (packagePath, methodPath) \<Rightarrow> Inr (funcPath, packagePath, methodPath))) of
        Inl e \<Rightarrow> Inl e
      | Inr (funcPath, packagePath, methodPath) \<Rightarrow>
          Inr \<lparr>LogRecord.Level = lvl, Timestamp = site_now site, SourceFile = site_file site,
               SourceLine = site_line site, Message = msg, FuncPath = funcPath,
               MethodPath = methodPath, PackagePath = packagePath,
               HostName = (case Hostname t of None \<Rightarrow> [] | Some h \<Rightarrow> h),
               Extra = extra\<rparr>)"

text \<open>
  \<^verbatim>\<open>
  func (t *Timber) doPrepareAndSend(lvl Level, extra map[string]interface{}, msg string, depth int) {
      select {
      case <-t.blackHole:
      default:
          t.recordChan <- t.prepare(lvl, extra, msg, depth+2)
      }
  }
  \<close>
  A receive from the closed \<^verbatim>\<open>blackHole\<close> is ready, so \<^verbatim>\<open>select\<close> takes it; otherwise the
  \<^verbatim>\<open>default\<close> branch evaluates \<^verbatim>\<open>prepare\<close> and sends. A send on a buffered channel
  proceeds while the buffer has room and blocks when it is full.
\<close>

definition doPrepareAndSend ::
  "Timber \<Rightarrow> Level \<Rightarrow> (string \<times> string) list \<Rightarrow> string \<Rightarrow> callsite \<Rightarrow> fault + Timber" where
  "doPrepareAndSend t lvl extra msg site =
     (if blackHole t then Inr t
      else case prepare t lvl extra msg site of
             Inl e \<Rightarrow> Inl e
           | Inr rec \<Rightarrow>
               if length (recordChan t) < recordChanCap
               then Inr (t\<lparr>recordChan := recordChan t @ [rec]\<rparr>)
               else Inl Blocks)"

definition prepareAndSend :: "Timber \<Rightarrow> Level \<Rightarrow> string \<Rightarrow> callsite \<Rightarrow> fault + Timber" where
  "prepareAndSend t lvl msg site = doPrepareAndSend t lvl [] msg site"

section \<open>Interleavings\<close>

text \<open>
  One step of the whole system: a caller submits a record, adds or replaces an entry or
  closes the logger, or the actor takes the next record from its channel. \<open>step\<close> gives the
  index that \<^verbatim>\<open>AddLogger\<close> returned, if the step was one; \<open>run\<close> performs a sequence of
  steps and collects these indices in order.
\<close>

datatype op =
    OpLog Level string callsite
  | OpDeliver
  | OpAdd ConfigLogger
  | OpSet int ConfigLogger
  | OpClose

fun is_OpAdd :: "op \<Rightarrow> bool" where
  "is_OpAdd (OpAdd c) = True"
| "is_OpAdd x = False"

fun is_OpLog :: "op \<Rightarrow> bool" where
  "is_OpLog (OpLog lvl msg site) = True"
| "is_OpLog x = False"

fun step :: "Timber \<Rightarrow> op \<Rightarrow> fault + (int option \<times> Timber)" where
  "step t (OpLog lvl msg site) = map_sum id (Pair None) (prepareAndSend t lvl msg site)"
| "step t OpDeliver = map_sum id (Pair None) (asyncLumberJack_record t)"
| "step t (OpAdd c) = map_sum id (\<lambda>(i, t'). (Some i, t')) (AddLogger t c)"
| "step t (OpSet i c) = map_sum id (Pair None) (SetLogger t i c)"
| "step t OpClose = map_sum id (Pair None) (Close t)"

fun run :: "Timber \<Rightarrow> op list \<Rightarrow> fault + (int list \<times> Timber)" where
  "run t [] = Inr ([], t)"
| "run t (x # xs) =
     (case step t x of
        Inl e \<Rightarrow> Inl e
      | Inr (r, t') \<Rightarrow>
          (case run t' xs of
             Inl e \<Rightarrow> Inl e
           | Inr (rs, t'') \<Rightarrow> Inr ((case r of None \<Rightarrow> rs | Some i \<Rightarrow> i # rs), t'')))"

section \<open>Concrete inputs\<close>

text \<open>
  Records, entries and logger states on which the theorems below are evaluated: a record
  logged from a method, a record logged from a plain function, entries with overrides at
  the function, method and package identity, a logger whose channel is full, and a logger
  with two queued records and two entries, before and after \<^verbatim>\<open>Close\<close>.
\<close>

definition rec0 :: LogRecord where
  "rec0 = \<lparr>LogRecord.Level = INFO, Timestamp = 0, SourceFile = ''main.go'', SourceLine = 10,
           Message = ''hello'', FuncPath = ''app/pkg.(T).Run'', MethodPath = ''app/pkg.(T)'',
           PackagePath = ''app/pkg'', HostName = ''h'', Extra = []\<rparr>"

definition rec1 :: LogRecord where
  "rec1 = \<lparr>LogRecord.Level = ERROR, Timestamp = 1, SourceFile = ''main.go'', SourceLine = 20,
           Message = ''boom'', FuncPath = ''app/pkg.Main'', MethodPath = [],
           PackagePath = ''app/pkg'', HostName = ''h'', Extra = []\<rparr>"

definition site0 :: callsite where
  "site0 = \<lparr>site_now = 0, site_file = ''main.go'', site_line = 10,
            site_me = Some ''app/pkg.(T).Run''\<rparr>"

definition cfgD :: ConfigLogger where
  "cfgD = \<lparr>LogWriter = 4, Level = FINEST, Formatter = Message, Granulars = Map.empty\<rparr>"

definition cfgF :: ConfigLogger where
  "cfgF = \<lparr>LogWriter = 1, Level = FINEST, Formatter = Message,
           Granulars = map_of [(''app/pkg.(T).Run'', ERROR), (''app/pkg.(T)'', FINEST),
                               (''app/pkg'', NONE)]\<rparr>"

definition cfgM :: ConfigLogger where
  "cfgM = \<lparr>LogWriter = 2, Level = FINEST, Formatter = Message,
           Granulars = map_of [(''app/pkg.(T)'', WARNING), (''app/pkg'', NONE)]\<rparr>"

definition cfgP :: ConfigLogger where
  "cfgP = \<lparr>LogWriter = 3, Level = FINEST, Formatter = Message,
           Granulars = map_of [(''app/pkg'', WARNING)]\<rparr>"

definition fullTimber :: Timber where
  "fullTimber = (NewTimber ''h'')\<lparr>recordChan := replicate 300 rec0\<rparr>"

definition busyTimber :: Timber where
  "busyTimber = (NewTimber ''h'')\<lparr>recordChan := [rec0, rec1], loggers := [cfgP, cfgD]\<rparr>"

definition closedTimber :: Timber where
  "closedTimber =
     busyTimber\<lparr>closeLatch := True, blackHole := True, recordChan := [], exited := True,
       trace := [EvLogWrite 4 ''hello'', EvLogWrite 3 ''boom'', EvLogWrite 4 ''boom'',
                 EvClose 3, EvClose 4, EvRet 0]\<rparr>"

definition traffic :: "op list" where
  "traffic = [OpLog INFO ''early'' site0, OpAdd cfgP, OpLog INFO ''hello'' site0, OpDeliver,
              OpAdd cfgD, OpDeliver, OpLog ERROR ''boom'' site0, OpAdd cfgM]"

section \<open>Properties of parseFuncName\<close>

lemma LastIndex_absent: "c \<notin> set s \<Longrightarrow> LastIndex s c = - 1"
  by (induction s) (auto simp: Let_def)

lemma LastIndex_lower: "- 1 \<le> LastIndex s c"
  by (induction s) (auto simp: Let_def)

lemma LastIndex_present: "c \<in> set s \<Longrightarrow> 0 \<le> LastIndex s c"
  by (induction s) (auto simp: Let_def)

lemma LastIndex_upper: "LastIndex s c < int (length s)"
  by (induction s) (auto simp: Let_def)

lemma LastIndex_split: "c \<notin> set f \<Longrightarrow> LastIndex (p @ c # f) c = int (length p)"
  by (induction p) (auto simp: Let_def LastIndex_absent)

lemma LastIndex_neg_iff: "LastIndex s c < 0 \<longleftrightarrow> c \<notin> set s"
  using LastIndex_absent [of c s] LastIndex_present [of c s] by fastforce


lemma slice_to_LastIndex:
  "slice_to s (LastIndex s c) = (if c \<in> set s then Inr (take (nat (LastIndex s c)) s) else Inl SliceBoundsOutOfRange)"
  using LastIndex_upper [of s c] LastIndex_present [of c s] LastIndex_absent [of c s]
  by (auto simp: slice_to_def)

lemma index_at_last:
  "index_at p (int (length p) - 1) = (if p = [] then Inl IndexOutOfRange else Inr (last p))"
  by (cases p rule: rev_cases) (auto simp: index_at_def nth_append)

lemma parseFuncName_unfold:
  "parseFuncName s =
     (if CHR ''.'' \<notin> set s then Inl SliceBoundsOutOfRange
      else let p = take (nat (LastIndex s (CHR ''.''))) s in
        if p = [] then Inl IndexOutOfRange
        else if last p = CHR '')'' then
          (if CHR ''.'' \<in> set p then Inr (take (nat (LastIndex p (CHR ''.''))) p, p)
           else Inl SliceBoundsOutOfRange)
        else Inr (p, []))"
  by (simp add: parseFuncName_def slice_to_LastIndex index_at_last Let_def del: length_take)

lemma take_nat_length: "take (nat (int (length m))) (m @ x) = m"
  by simp

text \<open>
  Claim C8. For a name \<open>p.f\<close> whose last component \<open>f\<close> holds no dot, the package path
  is \<open>p\<close>, the text before the last dot, and the method path is empty unless \<open>p\<close>
  ends in a closing parenthesis. When \<open>p\<close> is \<open>q.r\<close> with \<open>r\<close> free of dots and
  ending in a closing parenthesis, the method path is \<open>p\<close> and the package path is \<open>q\<close>,
  the text before the last dot of \<open>p\<close>.
\<close>

theorem parseFuncName_paths:
  "(CHR ''.'' \<notin> set f \<and> p \<noteq> [] \<and> last p \<noteq> CHR '')'' \<longrightarrow>
      parseFuncName (p @ CHR ''.'' # f) = Inr (p, [])) \<and>
   (CHR ''.'' \<notin> set f \<and> CHR ''.'' \<notin> set r \<and> last (q @ CHR ''.'' # r) = CHR '')'' \<longrightarrow>
      parseFuncName ((q @ CHR ''.'' # r) @ CHR ''.'' # f) = Inr (q, q @ CHR ''.'' # r))"
proof (intro conjI impI)
  assume h: "CHR ''.'' \<notin> set f \<and> p \<noteq> [] \<and> last p \<noteq> CHR '')''"
  then have "LastIndex (p @ CHR ''.'' # f) (CHR ''.'') = int (length p)"
    by (simp add: LastIndex_split)
  with h show "parseFuncName (p @ CHR ''.'' # f) = Inr (p, [])"
    by (simp add: parseFuncName_unfold)
next
  let ?m = "q @ CHR ''.'' # r"
  assume h: "CHR ''.'' \<notin> set f \<and> CHR ''.'' \<notin> set r \<and> last ?m = CHR '')''"
  then have 1: "LastIndex (?m @ CHR ''.'' # f) (CHR ''.'') = int (length ?m)"
    using LastIndex_split [of "CHR ''.''" f ?m] by simp
  from h have 2: "LastIndex ?m (CHR ''.'') = int (length q)"
    by (simp add: LastIndex_split)
  have 3: "take (nat (int (length ?m))) (?m @ CHR ''.'' # f) = ?m"
    by (rule take_nat_length)
  show "parseFuncName (?m @ CHR ''.'' # f) = Inr (q, ?m)"
    unfolding parseFuncName_unfold [of "?m @ CHR ''.'' # f"] 1 3 using h 2 by simp
qed

theorem parseFuncName_paths_witness:
  "parseFuncName ''some.package/with/bits.Func'' = Inr (''some.package/with/bits'', [])
   \<and> parseFuncName ''some.package/with/bits.(Type).Func''
       = Inr (''some.package/with/bits'', ''some.package/with/bits.(Type)'')"
  using parseFuncName_paths [of "''Func''" "''some.package/with/bits''" "''(Type)''" "''some.package/with/bits''"]
  by simp

text \<open>
  Claim C9. A name without a dot faults on the first slice bound; a name whose last dot is
  its first byte faults on the index; a name whose text before the last dot ends in a
  closing parenthesis and holds no dot faults on the second slice bound. The function
  returns exactly when the last dot is at position 1 or later and, in the method branch,
  the text before it holds a dot of its own.
\<close>

theorem parseFuncName_faults:
  "(CHR ''.'' \<notin> set s \<longrightarrow> parseFuncName s = Inl SliceBoundsOutOfRange) \<and>
   (CHR ''.'' \<notin> set f \<longrightarrow> parseFuncName (CHR ''.'' # f) = Inl IndexOutOfRange) \<and>
   (CHR ''.'' \<notin> set f \<and> CHR ''.'' \<notin> set p \<and> p \<noteq> [] \<and> last p = CHR '')'' \<longrightarrow>
      parseFuncName (p @ CHR ''.'' # f) = Inl SliceBoundsOutOfRange) \<and>
   parseFuncName ''.Func'' = Inl IndexOutOfRange \<and>
   parseFuncName ''x().'' = Inl SliceBoundsOutOfRange \<and>
   ((\<exists>res. parseFuncName s = Inr res) \<longleftrightarrow>
      1 \<le> LastIndex s (CHR ''.'') \<and>
      (last (take (nat (LastIndex s (CHR ''.''))) s) = CHR '')'' \<longrightarrow>
         CHR ''.'' \<in> set (take (nat (LastIndex s (CHR ''.''))) s)))"
proof (intro conjI impI)
  show "parseFuncName ''.Func'' = Inl IndexOutOfRange"
    by (simp add: parseFuncName_def slice_to_def index_at_def)
  show "parseFuncName ''x().'' = Inl SliceBoundsOutOfRange"
    by (simp add: parseFuncName_def slice_to_def index_at_def)
next
  assume "CHR ''.'' \<notin> set s"
  then show "parseFuncName s = Inl SliceBoundsOutOfRange"
    by (simp add: parseFuncName_unfold)
next
  assume "CHR ''.'' \<notin> set f"
  then have "LastIndex (CHR ''.'' # f) (CHR ''.'') = 0"
    using LastIndex_split [of "CHR ''.''" f "[]"] by simp
  then show "parseFuncName (CHR ''.'' # f) = Inl IndexOutOfRange"
    by (simp add: parseFuncName_unfold)
next
  assume h: "CHR ''.'' \<notin> set f \<and> CHR ''.'' \<notin> set p \<and> p \<noteq> [] \<and> last p = CHR '')''"
  then have "LastIndex (p @ CHR ''.'' # f) (CHR ''.'') = int (length p)"
    by (simp add: LastIndex_split)
  with h show "parseFuncName (p @ CHR ''.'' # f) = Inl SliceBoundsOutOfRange"
    by (simp add: parseFuncName_unfold)
next
  let ?i = "LastIndex s (CHR ''.'')"
  have a: "CHR ''.'' \<in> set s \<longleftrightarrow> 0 \<le> ?i"
    using LastIndex_neg_iff [of s "CHR ''.''"] by auto
  have b: "take (nat ?i) s = [] \<longleftrightarrow> ?i \<le> 0 \<or> s = []"
    by auto
  have c: "s = [] \<Longrightarrow> ?i = - 1" by simp
  show "(\<exists>res. parseFuncName s = Inr res) \<longleftrightarrow>
      1 \<le> ?i \<and> (last (take (nat ?i) s) = CHR '')'' \<longrightarrow> CHR ''.'' \<in> set (take (nat ?i) s))"
    unfolding parseFuncName_unfold [of s] Let_def using a b c by auto
qed

theorem parseFuncName_faults_witness:
  "parseFuncName ''Func'' = Inl SliceBoundsOutOfRange \<and>
   parseFuncName ''.Func'' = Inl IndexOutOfRange \<and>
   parseFuncName ''x().'' = Inl SliceBoundsOutOfRange \<and>
   (\<exists>res. parseFuncName ''a.b'' = Inr res) \<and>
   (\<exists>res. parseFuncName ''a.(T).m'' = Inr res)"
proof -
  have 1: "LastIndex ''a.b'' (CHR ''.'') = 1" by simp
  have 2: "LastIndex ''a.(T).m'' (CHR ''.'') = 5" by simp
  show ?thesis
    using parseFuncName_faults [of "''Func''" "''Func''" "''x()''"]
      parseFuncName_faults [of "''a.b''"] parseFuncName_faults [of "''a.(T).m''"]
    unfolding 1 2 by simp
qed

section \<open>Fan-out\<close>

lemmas level_defs = NONE_def FINEST_def FINE_def DEBUG_def TRACE_def INFO_def WARNING_def
  ERROR_def CRITICAL_def

lemma sendToLoggers_Cons:
  "sendToLoggers (cLog # rest) rec tr =
     sendToLoggers rest rec (snd (sendToLogger rec (effectiveThreshold cLog rec) [] cLog tr))"
  by (simp add: effectiveThreshold_def split: option.splits)

lemma sendToLogger_snd:
  "snd (sendToLogger rec g [] cLog tr) =
     (if g \<le> LogRecord.Level rec \<or> g = 0
      then tr @ [EvLogWrite (LogWriter cLog) (Formatter cLog rec)] else tr)"
  by (simp add: sendToLogger_def)

lemma sendToLoggers_append: "sendToLoggers ls rec tr = tr @ sendToLoggers ls rec []"
proof (induction ls arbitrary: tr)
  case Nil
  show ?case by simp
next
  case (Cons cLog ls)
  let ?d = "snd (sendToLogger rec (effectiveThreshold cLog rec) [] cLog [])"
  have "sendToLoggers (cLog # ls) rec tr = sendToLoggers ls rec (tr @ ?d)"
    unfolding sendToLoggers_Cons by (simp add: sendToLogger_snd)
  also have "\<dots> = (tr @ ?d) @ sendToLoggers ls rec []"
    by (rule Cons.IH)
  also have "\<dots> = tr @ sendToLoggers ls rec ?d"
    using Cons.IH [of ?d] by simp
  also have "\<dots> = tr @ sendToLoggers (cLog # ls) rec []"
    unfolding sendToLoggers_Cons ..
  finally show ?case .
qed

lemma drain_concat:
  "drain ls q tr = tr @ concat (map (\<lambda>rec. sendToLoggers ls rec []) q)"
proof (induction q arbitrary: tr)
  case Nil
  show ?case by simp
next
  case (Cons rec q)
  show ?case
    using Cons.IH [of "sendToLoggers ls rec tr"] sendToLoggers_append [of ls rec tr] by simp
qed

lemma closeAllWriters_map:
  "closeAllWriters cls tr = tr @ map (\<lambda>cLog. EvClose (LogWriter cLog)) cls"
  by (induction cls arbitrary: tr) simp_all

text \<open>
  Claim C1. \<^verbatim>\<open>sendToLogger\<close> formats the record and writes it to the entry's destination
  exactly when the record's level is at least the threshold or the threshold is \<open>NONE\<close>,
  and otherwise does nothing; a threshold of \<open>NONE\<close> delivers every record. For one
  registry entry, \<^verbatim>\<open>sendToLoggers\<close> applies this test with the effective threshold of
  the entry for the record.
\<close>

theorem sendToLogger_delivery:
  "(sendToLogger rec T formatted cLog tr =
      (True, tr @ [EvLogWrite (LogWriter cLog)
                     (if formatted = [] then Formatter cLog rec else formatted)])
    \<longleftrightarrow> T \<le> LogRecord.Level rec \<or> T = NONE) \<and>
   (sendToLogger rec T formatted cLog tr = (False, tr)
    \<longleftrightarrow> \<not> (T \<le> LogRecord.Level rec \<or> T = NONE)) \<and>
   sendToLogger rec NONE [] cLog tr =
     (True, tr @ [EvLogWrite (LogWriter cLog) (Formatter cLog rec)]) \<and>
   sendToLoggers [cLog] rec tr =
     (if effectiveThreshold cLog rec \<le> LogRecord.Level rec \<or> effectiveThreshold cLog rec = NONE
      then tr @ [EvLogWrite (LogWriter cLog) (Formatter cLog rec)] else tr)"
  unfolding sendToLoggers_Cons by (simp add: sendToLogger_def NONE_def)

theorem sendToLogger_delivery_witness:
  "sendToLogger rec0 WARNING [] cfgD [] = (False, []) \<and>
   sendToLogger rec0 INFO [] cfgD [] = (True, [EvLogWrite 4 ''hello'']) \<and>
   sendToLogger rec0 NONE [] cfgD [] = (True, [EvLogWrite 4 ''hello'']) \<and>
   sendToLoggers [cfgP] rec0 [] = [] \<and>
   sendToLoggers [cfgD] rec0 [] = [EvLogWrite 4 ''hello'']"
  using sendToLogger_delivery [of rec0 WARNING "[]" cfgD "[]"]
    sendToLogger_delivery [of rec0 INFO "[]" cfgD "[]"]
    sendToLogger_delivery [of rec0 NONE "[]" cfgP "[]"]
    sendToLogger_delivery [of rec0 NONE "[]" cfgD "[]"]
  by (simp add: rec0_def cfgD_def cfgP_def level_defs effectiveThreshold_def)

text \<open>
  Claim C2. For each entry the threshold is the granular level of the record's function
  identity when that key is present; else that of its method identity; else that of its
  package identity; else the entry's default. The level found first decides alone: where
  the record fails it, nothing is written for the entry and the loop goes on with the next
  entry. The loop body agrees with \<open>effectiveThreshold\<close>.
\<close>

theorem sendToLoggers_priority:
  "(Granulars cLog (FuncPath rec) = Some g \<longrightarrow>
      sendToLoggers (cLog # rest) rec tr =
        sendToLoggers rest rec (snd (sendToLogger rec g [] cLog tr))) \<and>
   (Granulars cLog (FuncPath rec) = None \<and> Granulars cLog (MethodPath rec) = Some g \<longrightarrow>
      sendToLoggers (cLog # rest) rec tr =
        sendToLoggers rest rec (snd (sendToLogger rec g [] cLog tr))) \<and>
   (Granulars cLog (FuncPath rec) = None \<and> Granulars cLog (MethodPath rec) = None \<and>
    Granulars cLog (PackagePath rec) = Some g \<longrightarrow>
      sendToLoggers (cLog # rest) rec tr =
        sendToLoggers rest rec (snd (sendToLogger rec g [] cLog tr))) \<and>
   (Granulars cLog (FuncPath rec) = None \<and> Granulars cLog (MethodPath rec) = None \<and>
    Granulars cLog (PackagePath rec) = None \<longrightarrow>
      sendToLoggers (cLog # rest) rec tr =
        sendToLoggers rest rec (snd (sendToLogger rec (ConfigLogger.Level cLog) [] cLog tr))) \<and>
   (Granulars cLog (FuncPath rec) = Some g \<and> LogRecord.Level rec < g \<and> g \<noteq> NONE \<longrightarrow>
      sendToLoggers (cLog # rest) rec tr = sendToLoggers rest rec tr) \<and>
   (Granulars cLog (FuncPath rec) = None \<and> Granulars cLog (MethodPath rec) = Some g \<and>
    LogRecord.Level rec < g \<and> g \<noteq> NONE \<longrightarrow>
      sendToLoggers (cLog # rest) rec tr = sendToLoggers rest rec tr) \<and>
   (Granulars cLog (FuncPath rec) = None \<and> Granulars cLog (MethodPath rec) = None \<and>
    Granulars cLog (PackagePath rec) = Some g \<and> LogRecord.Level rec < g \<and> g \<noteq> NONE \<longrightarrow>
      sendToLoggers (cLog # rest) rec tr = sendToLoggers rest rec tr) \<and>
   sendToLoggers (cLog # rest) rec tr =
     sendToLoggers rest rec (snd (sendToLogger rec (effectiveThreshold cLog rec) [] cLog tr))"
  unfolding sendToLoggers_Cons
  by (simp add: effectiveThreshold_def sendToLogger_snd NONE_def)

theorem sendToLoggers_priority_witness:
  "Granulars cfgF (FuncPath rec0) = Some ERROR \<and>
   Granulars cfgM (FuncPath rec0) = None \<and> Granulars cfgM (MethodPath rec0) = Some WARNING \<and>
   Granulars cfgP (MethodPath rec0) = None \<and> Granulars cfgP (PackagePath rec0) = Some WARNING \<and>
   Granulars cfgD (PackagePath rec0) = None \<and>
   sendToLoggers [cfgF] rec0 [] = [] \<and>
   sendToLoggers [cfgM] rec0 [] = [] \<and>
   sendToLoggers [cfgP] rec0 [] = [] \<and>
   sendToLoggers [cfgD] rec0 [] = [EvLogWrite 4 ''hello'']"
  using sendToLoggers_priority [of cfgF rec0 ERROR "[]" "[]"]
    sendToLoggers_priority [of cfgM rec0 WARNING "[]" "[]"]
    sendToLoggers_priority [of cfgP rec0 WARNING "[]" "[]"]
    sendToLoggers_priority [of cfgD rec0 FINEST "[]" "[]"]
  by (simp add: rec0_def cfgF_def cfgM_def cfgP_def cfgD_def level_defs sendToLogger_def)

section \<open>Record submission\<close>

lemma prepare_site0: "prepare (NewTimber ''h'') INFO [] ''hello'' site0 = Inr rec0"
  by (simp add: prepare_def site0_def rec0_def NewTimber_def parseFuncName_def slice_to_def index_at_def)

lemma prepare_Hostname: "Hostname t' = Hostname t \<Longrightarrow> prepare t' lvl extra msg site = prepare t lvl extra msg site"
  by (simp add: prepare_def cong: sum.case_cong)

text \<open>
  Claim C3, as stated, fails: with the \<^verbatim>\<open>blackHole\<close> channel open and 300 records in
  \<^verbatim>\<open>recordChan\<close>, the submission does not return with the record dropped; the send
  blocks.
\<close>

theorem doPrepareAndSend_full_blocks:
  "\<not> blackHole fullTimber \<and> length (recordChan fullTimber) = 300 \<and>
   doPrepareAndSend fullTimber INFO [] ''hello'' site0 = Inl Blocks \<and>
   doPrepareAndSend fullTimber INFO [] ''hello'' site0 \<noteq> Inr fullTimber"
proof -
  have "prepare fullTimber INFO [] ''hello'' site0 = Inr rec0"
    using prepare_Hostname [of fullTimber "NewTimber ''h''"] prepare_site0
    by (simp add: fullTimber_def)
  then show ?thesis
    by (simp add: doPrepareAndSend_def fullTimber_def NewTimber_def recordChanCap_def)
qed

text \<open>
  Claim C3, amended. While the \<^verbatim>\<open>blackHole\<close> channel is open, a submission whose record
  \<^verbatim>\<open>prepare\<close> builds is appended to \<^verbatim>\<open>recordChan\<close> and returns when the channel holds
  fewer than 300 records; when the channel is full the send blocks, and after the actor
  has received one record the same submission is enqueued.
\<close>

theorem doPrepareAndSend_blackHole_open:
  assumes "\<not> blackHole t" and "prepare t lvl extra msg site = Inr rec"
  shows "recordChanCap = 300 \<and>
   (length (recordChan t) < recordChanCap \<longrightarrow>
      doPrepareAndSend t lvl extra msg site = Inr (t\<lparr>recordChan := recordChan t @ [rec]\<rparr>)) \<and>
   (recordChanCap \<le> length (recordChan t) \<longrightarrow>
      doPrepareAndSend t lvl extra msg site = Inl Blocks) \<and>
   (length (recordChan t) = recordChanCap \<and> \<not> exited t \<longrightarrow>
      (\<exists>t'. asyncLumberJack_record t = Inr t' \<and>
            doPrepareAndSend t' lvl extra msg site = Inr (t'\<lparr>recordChan := recordChan t' @ [rec]\<rparr>)))"
proof (intro conjI impI)
  show "recordChanCap = 300" by (simp add: recordChanCap_def)
  show "doPrepareAndSend t lvl extra msg site = Inr (t\<lparr>recordChan := recordChan t @ [rec]\<rparr>)"
    if "length (recordChan t) < recordChanCap"
    using that assms by (simp add: doPrepareAndSend_def)
  show "doPrepareAndSend t lvl extra msg site = Inl Blocks"
    if "recordChanCap \<le> length (recordChan t)"
    using that assms by (simp add: doPrepareAndSend_def)
  show "\<exists>t'. asyncLumberJack_record t = Inr t' \<and>
            doPrepareAndSend t' lvl extra msg site = Inr (t'\<lparr>recordChan := recordChan t' @ [rec]\<rparr>)"
    if h: "length (recordChan t) = recordChanCap \<and> \<not> exited t"
  proof -
    from h obtain r q where rq: "recordChan t = r # q" and lq: "length q < recordChanCap"
      by (cases "recordChan t") (auto simp: recordChanCap_def)
    let ?t' = "t\<lparr>recordChan := q, trace := sendToLoggers (loggers t) r (trace t)\<rparr>"
    have 1: "asyncLumberJack_record t = Inr ?t'"
      using h rq by (simp add: asyncLumberJack_record_def)
    have "prepare ?t' lvl extra msg site = Inr rec"
      using assms(2) prepare_Hostname [of ?t' t] by simp
    then have 2: "doPrepareAndSend ?t' lvl extra msg site = Inr (?t'\<lparr>recordChan := recordChan ?t' @ [rec]\<rparr>)"
      using assms(1) lq by (simp add: doPrepareAndSend_def)
    from 1 2 show ?thesis by blast
  qed
qed

theorem doPrepareAndSend_blackHole_open_witness:
  "\<not> blackHole (NewTimber ''h'') \<and> \<not> blackHole fullTimber \<and>
   doPrepareAndSend (NewTimber ''h'') INFO [] ''hello'' site0
     = Inr ((NewTimber ''h'')\<lparr>recordChan := [rec0]\<rparr>) \<and>
   doPrepareAndSend fullTimber INFO [] ''hello'' site0 = Inl Blocks"
proof -
  have a: "\<not> blackHole (NewTimber ''h'')" by (simp add: NewTimber_def)
  have b: "\<not> blackHole fullTimber" by (simp add: fullTimber_def NewTimber_def)
  have c: "prepare fullTimber INFO [] ''hello'' site0 = Inr rec0"
    using prepare_Hostname [of fullTimber "NewTimber ''h''"] prepare_site0
    by (simp add: fullTimber_def)
  have d: "length (recordChan (NewTimber ''h'')) < recordChanCap"
    by (simp add: NewTimber_def recordChanCap_def)
  have e: "recordChanCap \<le> length (recordChan fullTimber)"
    by (simp add: fullTimber_def recordChanCap_def)
  have f: "recordChan (NewTimber ''h'') @ [rec0] = [rec0]"
    by (simp add: NewTimber_def)
  from doPrepareAndSend_blackHole_open [OF a prepare_site0] d
  have "doPrepareAndSend (NewTimber ''h'') INFO [] ''hello'' site0
          = Inr ((NewTimber ''h'')\<lparr>recordChan := recordChan (NewTimber ''h'') @ [rec0]\<rparr>)"
    by blast
  moreover from doPrepareAndSend_blackHole_open [OF b c] e
  have "doPrepareAndSend fullTimber INFO [] ''hello'' site0 = Inl Blocks"
    by blast
  ultimately show ?thesis
    using a b unfolding f by blast
qed

lemma doPrepareAndSend_closed: "blackHole t \<Longrightarrow> doPrepareAndSend t lvl extra msg site = Inr t"
  by (simp add: doPrepareAndSend_def)

lemma run_logs_closed: "blackHole t \<Longrightarrow> \<forall>x\<in>set ops. is_OpLog x \<Longrightarrow> run t ops = Inr ([], t)"
proof (induction ops)
  case Nil
  show ?case by simp
next
  case (Cons x ops)
  then obtain lvl msg site where "x = OpLog lvl msg site"
    by (cases x) auto
  with Cons show ?case
    by (simp add: prepareAndSend_def doPrepareAndSend_closed)
qed

lemma Close_busyTimber: "Close busyTimber = Inr closedTimber"
  by (simp add: Close_def busyTimber_def closedTimber_def NewTimber_def
      asyncLumberJack_config_def Let_def sendToLogger_def rec0_def rec1_def cfgP_def cfgD_def
      level_defs)

lemma quit_busyTimber:
  "asyncLumberJack_config busyTimber \<lparr>Action = actionQuit, Index = 0, Cfg = zeroConfigLogger\<rparr>
     = Inr (Some 0, closedTimber\<lparr>closeLatch := False\<rparr>)"
  by (simp add: busyTimber_def closedTimber_def NewTimber_def
      asyncLumberJack_config_def Let_def sendToLogger_def rec0_def rec1_def cfgP_def cfgD_def
      level_defs)

lemma busyTimber_fresh:
  "\<not> closeLatch busyTimber" "\<not> exited busyTimber" "\<not> blackHole busyTimber"
  by (simp_all add: busyTimber_def NewTimber_def)

text \<open>
  Claim C4. Once \<^verbatim>\<open>blackHole\<close> is closed, a submission returns with the logger
  unchanged: nothing is enqueued and nothing is written. The actor closes \<^verbatim>\<open>blackHole\<close>
  when it handles \<^verbatim>\<open>actionQuit\<close>, so this holds after \<^verbatim>\<open>Close\<close>, for any number of
  later submissions.
\<close>

theorem doPrepareAndSend_blackHole_closed:
  "(blackHole t \<longrightarrow> doPrepareAndSend t lvl extra msg site = Inr t) \<and>
   (Action cfg = actionQuit \<and> asyncLumberJack_config t cfg = Inr (r, t') \<longrightarrow>
      blackHole t' \<and> doPrepareAndSend t' lvl extra msg site = Inr t') \<and>
   (\<not> closeLatch t \<and> Close t = Inr t' \<longrightarrow>
      blackHole t' \<and> doPrepareAndSend t' lvl extra msg site = Inr t') \<and>
   (blackHole t \<and> (\<forall>x\<in>set ops. is_OpLog x) \<longrightarrow> run t ops = Inr ([], t))"
proof (intro conjI impI)
  show "doPrepareAndSend t lvl extra msg site = Inr t" if "blackHole t"
    using that by (rule doPrepareAndSend_closed)
  show "run t ops = Inr ([], t)" if "blackHole t \<and> (\<forall>x\<in>set ops. is_OpLog x)"
    using that run_logs_closed by blast
  have q: "blackHole t'" if "Action cfg = actionQuit \<and> asyncLumberJack_config t cfg = Inr (r, t')"
    using that by (auto simp: asyncLumberJack_config_def Let_def split: if_splits)
  show "blackHole t'" if "Action cfg = actionQuit \<and> asyncLumberJack_config t cfg = Inr (r, t')"
    using that by (rule q)
  show "doPrepareAndSend t' lvl extra msg site = Inr t'"
    if "Action cfg = actionQuit \<and> asyncLumberJack_config t cfg = Inr (r, t')"
    using q [OF that] by (rule doPrepareAndSend_closed)
  have c: "blackHole t'" if "\<not> closeLatch t \<and> Close t = Inr t'"
    using that
    by (auto simp: Close_def asyncLumberJack_config_def Let_def split: if_splits)
  show "blackHole t'" if "\<not> closeLatch t \<and> Close t = Inr t'"
    using that by (rule c)
  show "doPrepareAndSend t' lvl extra msg site = Inr t'" if "\<not> closeLatch t \<and> Close t = Inr t'"
    using c [OF that] by (rule doPrepareAndSend_closed)
qed

theorem doPrepareAndSend_blackHole_closed_witness:
  "\<not> closeLatch busyTimber \<and> Close busyTimber = Inr closedTimber \<and> blackHole closedTimber \<and>
   blackHole (closedTimber\<lparr>closeLatch := False\<rparr>) \<and>
   doPrepareAndSend closedTimber INFO [] ''late'' site0 = Inr closedTimber \<and>
   run closedTimber [OpLog INFO ''late'' site0, OpLog ERROR ''later'' site0]
     = Inr ([], closedTimber)"
proof -
  have l: "\<forall>x\<in>set [OpLog INFO ''late'' site0, OpLog ERROR ''later'' site0]. is_OpLog x"
    by simp
  have q: "Action \<lparr>Action = actionQuit, Index = 0, Cfg = zeroConfigLogger\<rparr> = actionQuit"
    by simp
  from doPrepareAndSend_blackHole_closed
      [where t = closedTimber and lvl = INFO and extra = "[]" and msg = "''late''"
         and site = site0 and ops = "[OpLog INFO ''late'' site0, OpLog ERROR ''later'' site0]"]
    doPrepareAndSend_blackHole_closed
      [where t = busyTimber and t' = closedTimber and lvl = INFO and extra = "[]"
         and msg = "''late''" and site = site0]
    doPrepareAndSend_blackHole_closed
      [where t = busyTimber and t' = "closedTimber\<lparr>closeLatch := False\<rparr>" and r = "Some 0"
         and cfg = "\<lparr>Action = actionQuit, Index = 0, Cfg = zeroConfigLogger\<rparr>"]
    busyTimber_fresh(1) Close_busyTimber l q quit_busyTimber
  show ?thesis by blast
qed

section \<open>Shutdown\<close>

text \<open>
  Claim C5. On a running logger \<^verbatim>\<open>Close\<close> returns in the state where the channel is
  empty and the trace has grown by the fan-out of every queued record, oldest first,
  against the entries of that moment, then by one \<^verbatim>\<open>Close\<close> per entry in index order,
  and last by the reply to the caller. The fan-out of a record is the one the running
  actor performs when it receives the record.
\<close>

theorem Close_drains_then_closes:
  assumes "\<not> closeLatch t" and "\<not> exited t" and "\<not> blackHole t"
  shows "Close t =
     Inr (t\<lparr>closeLatch := True, blackHole := True, recordChan := [], exited := True,
            trace := trace t
              @ concat (map (\<lambda>rec. sendToLoggers (loggers t) rec []) (recordChan t))
              @ map (\<lambda>cLog. EvClose (LogWriter cLog)) (loggers t)
              @ [EvRet 0]\<rparr>) \<and>
   (\<forall>rec q. recordChan t = rec # q \<longrightarrow>
      asyncLumberJack_record t =
        Inr (t\<lparr>recordChan := q, trace := trace t @ sendToLoggers (loggers t) rec []\<rparr>))"
proof (intro conjI allI impI)
  show "Close t =
     Inr (t\<lparr>closeLatch := True, blackHole := True, recordChan := [], exited := True,
            trace := trace t
              @ concat (map (\<lambda>rec. sendToLoggers (loggers t) rec []) (recordChan t))
              @ map (\<lambda>cLog. EvClose (LogWriter cLog)) (loggers t)
              @ [EvRet 0]\<rparr>)"
    using assms
    by (simp add: Close_def asyncLumberJack_config_def Let_def drain_concat closeAllWriters_map)
next
  fix rec q
  assume "recordChan t = rec # q"
  then show "asyncLumberJack_record t =
        Inr (t\<lparr>recordChan := q, trace := trace t @ sendToLoggers (loggers t) rec []\<rparr>)"
    using assms(2) sendToLoggers_append [of "loggers t" rec "trace t"]
    by (simp add: asyncLumberJack_record_def)
qed

theorem Close_drains_then_closes_witness:
  "\<not> closeLatch busyTimber \<and> \<not> exited busyTimber \<and> \<not> blackHole busyTimber \<and>
   recordChan busyTimber = [rec0, rec1] \<and> map LogWriter (loggers busyTimber) = [3, 4] \<and>
   Close busyTimber = Inr closedTimber \<and>
   trace closedTimber =
     [EvLogWrite 4 ''hello'', EvLogWrite 3 ''boom'', EvLogWrite 4 ''boom'',
      EvClose 3, EvClose 4, EvRet 0] \<and>
   map_sum id trace (asyncLumberJack_record busyTimber) = Inr [EvLogWrite 4 ''hello'']"
proof -
  have rc: "recordChan busyTimber = [rec0, rec1]" "map LogWriter (loggers busyTimber) = [3, 4]"
    by (simp_all add: busyTimber_def cfgP_def cfgD_def)
  have tc: "trace closedTimber =
     [EvLogWrite 4 ''hello'', EvLogWrite 3 ''boom'', EvLogWrite 4 ''boom'',
      EvClose 3, EvClose 4, EvRet 0]"
    by (simp add: closedTimber_def)
  note inst = Close_drains_then_closes [OF busyTimber_fresh]
  have cl: "Close busyTimber = Inr closedTimber"
    using inst
    by (simp add: busyTimber_def closedTimber_def NewTimber_def sendToLogger_def rec0_def
        rec1_def cfgP_def cfgD_def level_defs)
  from inst rc(1) have "asyncLumberJack_record busyTimber =
        Inr (busyTimber\<lparr>recordChan := [rec1],
               trace := trace busyTimber @ sendToLoggers (loggers busyTimber) rec0 []\<rparr>)"
    by blast
  then have "map_sum id trace (asyncLumberJack_record busyTimber) = Inr [EvLogWrite 4 ''hello'']"
    by (simp add: busyTimber_def NewTimber_def sendToLogger_def rec0_def cfgP_def cfgD_def
        level_defs)
  with rc tc cl busyTimber_fresh show ?thesis by blast
qed

lemma Close_latched: "closeLatch t \<Longrightarrow> Close t = Inr t"
  by (simp add: Close_def)

lemma Close_sets_latch: "Close t = Inr t' \<Longrightarrow> closeLatch t'"
  by (auto simp: Close_def split: if_splits sum.splits prod.splits option.splits)

lemma run_Close_latched: "closeLatch t \<Longrightarrow> run t (replicate n OpClose) = Inr ([], t)"
  by (induction n) (simp_all add: Close_latched)

text \<open>
  Claim C6. \<^verbatim>\<open>Close\<close> on a logger whose latch is set returns the logger unchanged; the
  first \<^verbatim>\<open>Close\<close> sets the latch, so the second and any number of later calls write
  nothing and close nothing.
\<close>

theorem Close_idempotent:
  "(closeLatch t \<longrightarrow> Close t = Inr t) \<and>
   (Close t = Inr t' \<longrightarrow>
      closeLatch t' \<and> Close t' = Inr t' \<and> run t' (replicate n OpClose) = Inr ([], t'))"
  using Close_latched Close_sets_latch run_Close_latched by blast

theorem Close_idempotent_witness:
  "Close busyTimber = Inr closedTimber \<and> closeLatch closedTimber \<and>
   Close closedTimber = Inr closedTimber \<and>
   run busyTimber [OpClose, OpClose, OpClose] = Inr ([], closedTimber)"
proof -
  have r: "replicate 2 OpClose = [OpClose, OpClose]"
    by (simp add: numeral_2_eq_2)
  from Close_idempotent [of busyTimber closedTimber 2] Close_busyTimber
  have "closeLatch closedTimber" and "Close closedTimber = Inr closedTimber"
    and "run closedTimber [OpClose, OpClose] = Inr ([], closedTimber)"
    unfolding r by blast+
  with Close_busyTimber show ?thesis by simp
qed

section \<open>Registry operations\<close>

lemma AddLogger_running:
  "\<not> exited t \<Longrightarrow>
   AddLogger t logger =
     Inr (int (length (loggers t)),
          t\<lparr>loggers := loggers t @ [logger],
            trace := trace t @ [EvRet (int (length (loggers t)))]\<rparr>)"
  by (simp add: AddLogger_def asyncLumberJack_config_def Let_def)

lemma AddLogger_Inr:
  assumes "AddLogger t logger = Inr (i, t')"
  shows "i = int (length (loggers t)) \<and> loggers t' = loggers t @ [logger] \<and> \<not> exited t'"
proof (cases "exited t")
  case True
  then have "AddLogger t logger = Inl Blocks"
    by (simp add: AddLogger_def asyncLumberJack_config_def)
  with assms show ?thesis by simp
next
  case False
  from AddLogger_running [OF this, of logger] assms False show ?thesis by auto
qed

lemma upt_shift: "[n..<n + Suc k] = n # [Suc n..<Suc n + k]"
  by (simp add: upt_conv_Cons del: upt_Suc)

lemma SetLogger_running:
  "\<not> exited t \<Longrightarrow>
   SetLogger t i c =
     (if 0 \<le> i \<and> i < int (length (loggers t))
      then Inr (t\<lparr>loggers := (loggers t)[nat i := c],
                 trace := trace t @ [EvClose (LogWriter (loggers t ! nat i))]\<rparr>)
      else Inl IndexOutOfRange)"
  by (simp add: SetLogger_def asyncLumberJack_config_def)

lemma step_loggers:
  assumes "step t x = Inr (r, t')"
  shows "if is_OpAdd x
         then r = Some (int (length (loggers t))) \<and> length (loggers t') = Suc (length (loggers t))
         else r = None \<and> length (loggers t') = length (loggers t)"
proof (cases x)
  case (OpLog lvl msg site)
  with assms show ?thesis
    by (auto simp: prepareAndSend_def doPrepareAndSend_def split: if_splits sum.splits)
next
  case OpDeliver
  with assms show ?thesis
    by (auto simp: asyncLumberJack_record_def split: if_splits list.splits)
next
  case (OpAdd c)
  with assms obtain i where "AddLogger t c = Inr (i, t')" and "r = Some i"
    by (cases "AddLogger t c") auto
  with OpAdd AddLogger_Inr [of t c i t'] show ?thesis by simp
next
  case (OpSet i c)
  with assms show ?thesis
    by (auto simp: SetLogger_def asyncLumberJack_config_def split: if_splits)
next
  case OpClose
  with assms show ?thesis
    by (auto simp: Close_def asyncLumberJack_config_def Let_def split: if_splits)
qed

lemma run_rets:
  "run t ops = Inr (rets, t') \<Longrightarrow>
   rets = map int [length (loggers t)..<length (loggers t) + length (filter is_OpAdd ops)]"
proof (induction ops arbitrary: t rets)
  case Nil
  then show ?case by simp
next
  case (Cons x ops)
  from Cons.prems obtain r t1 rs where
    s: "step t x = Inr (r, t1)" and
    k: "run t1 ops = Inr (rs, t')" and
    e: "rets = (case r of None \<Rightarrow> rs | Some i \<Rightarrow> i # rs)"
    by (auto split: sum.splits prod.splits)
  note ih = Cons.IH [OF k]
  show ?case
  proof (cases "is_OpAdd x")
    case True
    with step_loggers [OF s] have r: "r = Some (int (length (loggers t)))"
      and l: "length (loggers t1) = Suc (length (loggers t))" by simp_all
    have fl: "length (filter is_OpAdd (x # ops)) = Suc (length (filter is_OpAdd ops))"
      using True by simp
    have "rets = int (length (loggers t)) # rs"
      using e r by simp
    then show ?thesis
      unfolding fl upt_shift ih l by simp
  next
    case False
    with step_loggers [OF s] have "r = None" and "length (loggers t1) = length (loggers t)"
      by simp_all
    with ih e False show ?thesis by simp
  qed
qed

lemma prepare_NewTimber_site0:
  "Hostname t = Some ''h'' \<Longrightarrow>
   prepare t lvl [] msg site0 = Inr (rec0\<lparr>LogRecord.Level := lvl, Message := msg\<rparr>)"
  by (simp add: prepare_def site0_def rec0_def parseFuncName_def slice_to_def index_at_def)

text \<open>
  Claim C7. On a running logger \<^verbatim>\<open>AddLogger\<close> returns the number of entries before the
  append. In every sequence of steps from a new logger (submissions, deliveries,
  replacements and additions in any order), the indices returned are \<open>0, 1, 2, \<dots>\<close> in
  order.
\<close>

theorem AddLogger_sequential:
  "(\<not> exited t \<longrightarrow>
      AddLogger t logger =
        Inr (int (length (loggers t)),
             t\<lparr>loggers := loggers t @ [logger],
               trace := trace t @ [EvRet (int (length (loggers t)))]\<rparr>)) \<and>
   (run (NewTimber h) ops = Inr (rets, t') \<longrightarrow>
      rets = map int [0..<length (filter is_OpAdd ops)])"
proof (intro conjI impI)
  assume "\<not> exited t"
  then show "AddLogger t logger =
        Inr (int (length (loggers t)),
             t\<lparr>loggers := loggers t @ [logger],
               trace := trace t @ [EvRet (int (length (loggers t)))]\<rparr>)"
    by (rule AddLogger_running)
next
  assume "run (NewTimber h) ops = Inr (rets, t')"
  from run_rets [OF this] show "rets = map int [0..<length (filter is_OpAdd ops)]"
    by (simp add: NewTimber_def)
qed

theorem AddLogger_sequential_witness:
  "\<not> exited (NewTimber ''h'') \<and>
   map_sum id fst (AddLogger (NewTimber ''h'') cfgP) = Inr 0 \<and>
   map_sum id fst (run (NewTimber ''h'') traffic) = Inr [0, 1, 2]"
proof -
  have a: "\<not> exited (NewTimber ''h'')" by (simp add: NewTimber_def)
  have "\<exists>t'. run (NewTimber ''h'') traffic = Inr ([0, 1, 2], t')"
    by (simp add: traffic_def NewTimber_def prepareAndSend_def doPrepareAndSend_def
        prepare_NewTimber_site0 recordChanCap_def asyncLumberJack_record_def AddLogger_def
        asyncLumberJack_config_def Let_def)
  then obtain t' where r: "run (NewTimber ''h'') traffic = Inr ([0, 1, 2], t')" ..
  have f: "map int [0..<length (filter is_OpAdd traffic)] = [0, 1, 2]"
    by (simp add: traffic_def upt_rec)
  from AddLogger_sequential [of "NewTimber ''h''" cfgP "''h''" traffic "[0, 1, 2]" t'] a r f
  show ?thesis
    by (simp add: NewTimber_def)
qed

text \<open>
  Claim C10. The \<^verbatim>\<open>actionSet\<close> branch reads \<^verbatim>\<open>loggers[cfg.Index]\<close> unchecked: on a
  running logger it panics with an index out of range exactly when the index is outside
  \<open>[0, length)\<close>, and otherwise closes the old destination and installs the new entry. An
  index returned by \<^verbatim>\<open>AddLogger\<close> is in range.
\<close>

theorem SetLogger_unchecked_index:
  "(\<not> exited t \<longrightarrow>
      (asyncLumberJack_config t \<lparr>Action = actionSet, Index = i, Cfg = c\<rparr> = Inl IndexOutOfRange
       \<longleftrightarrow> \<not> (0 \<le> i \<and> i < int (length (loggers t))))) \<and>
   (\<not> exited t \<and> \<not> (0 \<le> i \<and> i < int (length (loggers t))) \<longrightarrow>
      SetLogger t i c = Inl IndexOutOfRange) \<and>
   (\<not> exited t \<and> 0 \<le> i \<and> i < int (length (loggers t)) \<longrightarrow>
      SetLogger t i c =
        Inr (t\<lparr>loggers := (loggers t)[nat i := c],
               trace := trace t @ [EvClose (LogWriter (loggers t ! nat i))]\<rparr>)) \<and>
   (AddLogger t c = Inr (k, t') \<longrightarrow>
      SetLogger t' k c' =
        Inr (t'\<lparr>loggers := (loggers t')[nat k := c'],
                trace := trace t' @ [EvClose (LogWriter c)]\<rparr>))"
proof (intro conjI impI)
  assume "\<not> exited t"
  then show "asyncLumberJack_config t \<lparr>Action = actionSet, Index = i, Cfg = c\<rparr> = Inl IndexOutOfRange
       \<longleftrightarrow> \<not> (0 \<le> i \<and> i < int (length (loggers t)))"
    by (simp add: asyncLumberJack_config_def)
next
  assume "\<not> exited t \<and> \<not> (0 \<le> i \<and> i < int (length (loggers t)))"
  then show "SetLogger t i c = Inl IndexOutOfRange"
    by (simp add: SetLogger_running)
next
  assume "\<not> exited t \<and> 0 \<le> i \<and> i < int (length (loggers t))"
  then show "SetLogger t i c =
        Inr (t\<lparr>loggers := (loggers t)[nat i := c],
               trace := trace t @ [EvClose (LogWriter (loggers t ! nat i))]\<rparr>)"
    by (simp add: SetLogger_running)
next
  assume "AddLogger t c = Inr (k, t')"
  from AddLogger_Inr [OF this]
  have "k = int (length (loggers t))" "loggers t' = loggers t @ [c]" "\<not> exited t'"
    by simp_all
  then show "SetLogger t' k c' =
        Inr (t'\<lparr>loggers := (loggers t')[nat k := c'],
                trace := trace t' @ [EvClose (LogWriter c)]\<rparr>)"
    by (simp add: SetLogger_running)
qed

theorem SetLogger_unchecked_index_witness:
  "\<not> exited busyTimber \<and> length (loggers busyTimber) = 2 \<and>
   SetLogger busyTimber 2 cfgM = Inl IndexOutOfRange \<and>
   SetLogger busyTimber (- 1) cfgM = Inl IndexOutOfRange \<and>
   map_sum id trace (SetLogger busyTimber 1 cfgM) = Inr [EvClose 4] \<and>
   map_sum id fst (AddLogger busyTimber cfgF) = Inr 2 \<and>
   map_sum id trace (SetLogger (snd (projr (AddLogger busyTimber cfgF))) 2 cfgM)
     = Inr [EvRet 2, EvClose 1]"
proof -
  have l: "length (loggers busyTimber) = 2" "trace busyTimber = []"
    "LogWriter (loggers busyTimber ! Suc 0) = 4" "LogWriter cfgF = 1"
    by (simp_all add: busyTimber_def NewTimber_def cfgD_def cfgF_def)
  let ?t' = "busyTimber\<lparr>loggers := loggers busyTimber @ [cfgF],
            trace := trace busyTimber @ [EvRet 2]\<rparr>"
  have a: "AddLogger busyTimber cfgF = Inr (2, ?t')"
    using AddLogger_running [OF busyTimber_fresh(2), of cfgF] l by simp
  from SetLogger_unchecked_index [where t = busyTimber and c = cfgF and k = 2 and t' = ?t' and c' = cfgM] a
  have b: "SetLogger ?t' 2 cfgM =
        Inr (?t'\<lparr>loggers := (loggers ?t')[nat 2 := cfgM],
                trace := trace ?t' @ [EvClose (LogWriter cfgF)]\<rparr>)"
    by blast
  from SetLogger_unchecked_index [of busyTimber 2 cfgM]
    SetLogger_unchecked_index [of busyTimber "- 1" cfgM]
    SetLogger_unchecked_index [of busyTimber 1 cfgM]
    busyTimber_fresh(2) l a b
  show ?thesis by simp
qed

end
